theory Spec2Isabelle
  imports Main
begin

section \<open>Car log uploader: a model of \<open>cargui19.py\<close>\<close>

text \<open>
  The program drives a browser through Selenium. The browser, the page it shows and the
  file system are outside the program, so the model makes them explicit: a \<open>page\<close> record
  fixes what each leaf interaction with the browser does while one trip is processed
  (element found or not, click accepted or not, which options a dropdown lists), and a
  \<open>world\<close> record holds what the program changes (the ledger file and counters of the
  clicks and navigations it performs). Python exceptions are values of type \<open>exn\<close>; a
  function that may raise returns \<open>exn + 'a\<close>. Settling delays (\<open>time.sleep\<close>) and console
  output change nothing the model observes and are left out. The browser session is taken
  to start and to stay alive: switching to the default content does not raise.
\<close>

subsection \<open>Python values and strings\<close>

text \<open>
  Strings are ASCII text. A spreadsheet cell is a string or an integer (the two kinds
  of value whose truth value and \<open>str()\<close> the program relies on).
\<close>

datatype cell = Str string | Num int

definition truthy :: "cell \<Rightarrow> bool" where
  "truthy v = (case v of Str s \<Rightarrow> s \<noteq> [] | Num n \<Rightarrow> n \<noteq> 0)"

fun digits :: "nat \<Rightarrow> string" where
  "digits n = (if n < 10 then [char_of (48 + n)] else digits (n div 10) @ [char_of (48 + n mod 10)])"

declare digits.simps [simp del]

definition str_int :: "int \<Rightarrow> string" where
  "str_int i = (if i < 0 then CHR ''-'' # digits (nat (- i)) else digits (nat i))"

definition str :: "cell \<Rightarrow> string" where
  "str v = (case v of Str s \<Rightarrow> s | Num n \<Rightarrow> str_int n)"

definition is_space :: "char \<Rightarrow> bool" where
  "is_space c = (let n = (of_char c :: nat) in n = 32 \<or> (9 \<le> n \<and> n \<le> 13) \<or> (28 \<le> n \<and> n \<le> 31))"

definition strip :: "string \<Rightarrow> string" where
  "strip s = rev (dropWhile is_space (rev (dropWhile is_space s)))"

definition lower_char :: "char \<Rightarrow> char" where
  "lower_char c = (let n = (of_char c :: nat) in if 65 \<le> n \<and> n \<le> 90 then char_of (n + 32) else c)"

definition lower :: "string \<Rightarrow> string" where
  "lower s = map lower_char s"

fun starts_with :: "string \<Rightarrow> string \<Rightarrow> bool" where
  "starts_with [] ys = True"
| "starts_with (x # xs) [] = False"
| "starts_with (x # xs) (y # ys) = (x = y \<and> starts_with xs ys)"

text \<open>\<open>contains sub s\<close> is Python's \<open>sub in s\<close> on strings.\<close>

fun contains :: "string \<Rightarrow> string \<Rightarrow> bool" where
  "contains sub [] = (sub = [])"
| "contains sub (y # ys) = (starts_with sub (y # ys) \<or> contains sub ys)"

subsection \<open>Exceptions\<close>

datatype exn =
    NameError string
  | AttributeError string
  | ValueError string
  | FileNotFoundError string
  | Exception string
  | TimeoutException string
  | WebDriverException string

text \<open>\<open>str(e)\<close>: the message; Selenium's exceptions print it as \<open>Message: ...\<close>.\<close>

fun str_exn :: "exn \<Rightarrow> string" where
  "str_exn (NameError m) = m"
| "str_exn (AttributeError m) = m"
| "str_exn (ValueError m) = m"
| "str_exn (FileNotFoundError m) = m"
| "str_exn (Exception m) = m"
| "str_exn (TimeoutException m) = ''Message: '' @ m @ [CHR 0x0A]"
| "str_exn (WebDriverException m) = ''Message: '' @ m @ [CHR 0x0A]"

subsection \<open>Connection-field helpers\<close>

text \<open>
  One \<open>ul.chzn-results\<close> list under a field's container: whether it is displayed, the
  texts of its \<open>li.active-result\<close> items, and whether scrolling to and clicking the chosen
  item goes through (native click, then the scripted click).
\<close>

record results_list =
  displayed :: bool
  item_texts :: "string list"
  click_ok :: bool

text \<open>
  A connection field's widget: whether \<open>get_connection_input\<close> finds a search input,
  whether typing the query goes through, the result lists shown after typing, and
  whether the keyboard fallback (arrow down, enter) goes through.
\<close>

record conn_widget =
  search_input :: bool
  typing_ok :: bool
  results :: "results_list list"
  keyboard_ok :: bool

text \<open>
  The inner loop of \<open>type_and_select_connection_option\<close> over the items of one list.
  It returns \<open>(best_match, partial_match)\<close>; an item is identified with its text.
\<close>

fun scan_items :: "string \<Rightarrow> string list \<Rightarrow> string option \<Rightarrow> string option \<times> string option" where
  "scan_items target_text_lower [] partial_match = (None, partial_match)"
| "scan_items target_text_lower (item # rest) partial_match =
     (let item_text = strip item; item_text_lower = lower item_text in
      if item_text_lower = target_text_lower then (Some item, partial_match)
      else if contains target_text_lower item_text_lower \<and> partial_match = None
           then scan_items target_text_lower rest (Some item)
      else scan_items target_text_lower rest partial_match)"

text \<open>
  \<open>item_to_click = best_match or partial_match or first_item\<close>, for a non-empty list.
  A web element is always truthy, so the \<open>return None\<close> after \<open>if item_to_click:\<close> is
  never reached.
\<close>

definition item_to_click :: "string \<Rightarrow> string list \<Rightarrow> string" where
  "item_to_click target_text_lower dropdown_items =
     (let first_item = hd dropdown_items in
      case scan_items target_text_lower dropdown_items None of
        (Some best_match, _) \<Rightarrow> best_match
      | (None, Some partial_match) \<Rightarrow> partial_match
      | (None, None) \<Rightarrow> first_item)"

text \<open>
  The loop over the result lists: a list that is hidden or has no items is skipped; an
  exception while clicking is caught and the next list is tried. \<open>None\<close> means that the
  loop ended without a \<open>return\<close>.
\<close>

fun scan_results_lists :: "string \<Rightarrow> results_list list \<Rightarrow> string option" where
  "scan_results_lists target_text_lower [] = None"
| "scan_results_lists target_text_lower (results_list # rest) =
     (if \<not> displayed results_list then scan_results_lists target_text_lower rest
      else if item_texts results_list = [] then scan_results_lists target_text_lower rest
      else if click_ok results_list
           then Some (strip (item_to_click target_text_lower (item_texts results_list)))
      else scan_results_lists target_text_lower rest)"

text \<open>Returns the selected text, or \<open>None\<close> for failure.\<close>

definition type_and_select_connection_option :: "conn_widget \<Rightarrow> string \<Rightarrow> string option" where
  "type_and_select_connection_option w text =
     (if \<not> typing_ok w then None
      else case scan_results_lists (lower (strip text)) (results w) of
             Some selected_text \<Rightarrow> Some selected_text
           | None \<Rightarrow> if keyboard_ok w then Some text else None)"

definition fill_connection_field :: "conn_widget \<Rightarrow> cell \<Rightarrow> string option" where
  "fill_connection_field w v =
     (let text = strip (str v) in
      if text = [] then None
      else if \<not> search_input w then None
      else type_and_select_connection_option w text)"

subsection \<open>The ledger\<close>

type_synonym row = "cell list"

text \<open>A trip record and the selected-values dictionary are Python dicts keyed by field name.\<close>

type_synonym trip = "string \<rightharpoonup> cell"
type_synonym selected = "string \<rightharpoonup> cell"

text \<open>\<open>d.get(key, default)\<close>\<close>

definition get :: "(string \<rightharpoonup> cell) \<Rightarrow> string \<Rightarrow> cell \<Rightarrow> cell" where
  "get d key dflt = (case d key of Some v \<Rightarrow> v | None \<Rightarrow> dflt)"

text \<open>
  What the program changes: the ledger file \<open>Submission_Log.csv\<close> (\<open>None\<close> while it does
  not exist, else its rows), and counters of the submit clicks, of the calls of
  \<open>click_reload_form_button\<close> and of the navigations to the entry URL.
\<close>

record world =
  ledger :: "row list option"
  submit_clicks :: nat
  reload_calls :: nat
  navigations :: nat

definition header_row :: row where
  "header_row = map Str
     [''Timestamp'', ''Status'', ''Error Message'',
      ''Department (Excel Input)'', ''Department (Actual Selected)'',
      ''Plate (Excel Input)'', ''Plate (Actual Selected)'',
      ''Date'', ''Start Time'', ''Start Odometer'', ''End Time'', ''End Odometer'',
      ''Destination'',
      ''Driver (Excel Input)'', ''Driver (Actual Selected)'']"

definition initialize_log :: "world \<Rightarrow> world" where
  "initialize_log w = (if ledger w = None then w\<lparr>ledger := Some [header_row]\<rparr> else w)"

definition simple_fields :: "string list" where
  "simple_fields = [''Date'', ''Start_Time'', ''Start_Mileage'', ''End_Time'', ''End_Mileage'',
                    ''Destination'']"

text \<open>The row that \<open>log_submission\<close> builds.\<close>

definition ledger_row :: "string \<Rightarrow> trip \<Rightarrow> selected \<Rightarrow> string \<Rightarrow> string \<Rightarrow> row" where
  "ledger_row timestamp trip_data_excel trip_data_selected status error_msg =
     [Str timestamp, Str status, Str error_msg,
      get trip_data_excel ''Department'' (Str ''N/A''),
      get trip_data_selected ''Department'' (get trip_data_excel ''Department'' (Str ''N/A'')),
      get trip_data_excel ''Plate'' (Str ''N/A''),
      get trip_data_selected ''Plate'' (get trip_data_excel ''Plate'' (Str ''N/A''))]
     @ map (\<lambda>field. get trip_data_excel field (Str ''N/A'')) simple_fields
     @ [get trip_data_excel ''Driver'' (Str ''N/A''),
        get trip_data_selected ''Driver'' (get trip_data_excel ''Driver'' (Str ''N/A''))]"

text \<open>
  \<open>log_submission\<close> opens the file for appending (which creates it when absent), builds
  the row and writes it. The selected-values argument is \<open>None\<close> when the caller holds
  Python's \<open>None\<close>: building the row then raises at \<open>trip_data_selected.get\<close>, after the
  file was opened and before anything is written.
\<close>

definition none_has_no_get :: string where
  "none_has_no_get = [CHR 0x27] @ ''NoneType'' @ [CHR 0x27] @ '' object has no attribute ''
                     @ [CHR 0x27] @ ''get'' @ [CHR 0x27]"

definition log_submission ::
    "string \<Rightarrow> trip \<Rightarrow> selected option \<Rightarrow> string \<Rightarrow> string \<Rightarrow> world \<Rightarrow> (exn + unit) \<times> world" where
  "log_submission timestamp trip_data_excel trip_data_selected status error_msg w =
     (let rows = (case ledger w of None \<Rightarrow> [] | Some rs \<Rightarrow> rs) in
      case trip_data_selected of
        None \<Rightarrow> (Inl (AttributeError none_has_no_get), w\<lparr>ledger := Some rows\<rparr>)
      | Some d \<Rightarrow> (Inr (),
                  w\<lparr>ledger := Some (rows @ [ledger_row timestamp trip_data_excel d status error_msg])\<rparr>))"

subsection \<open>The page\<close>

text \<open>
  What writing into a simple input does: \<open>clear\<close> and \<open>send_keys\<close> go through; they raise
  \<open>InvalidElementStateException\<close> and the scripted assignment goes through, or raises too;
  or they raise something else.
\<close>

datatype write_outcome = NativeOk | ScriptedOk | ScriptFails | WriteFails

text \<open>
  The page while one trip is processed. \<open>plate_in_main\<close>: the Plate locator matches in
  the main document; \<open>plate_in_iframes\<close>: for each iframe, whether it matches there;
  \<open>located key\<close>: the wait for the field's element ends before its timeout;
  \<open>widget key\<close>, \<open>write_result key\<close>: what filling the field does; \<open>submit_present\<close>:
  \<open>find_submit_button\<close> returns a button; \<open>submit_click_ok\<close>: \<open>click_button_robust\<close>
  does not raise; \<open>success_wait\<close>: what \<open>wait_for_success_message\<close> returns or raises;
  \<open>reload_outcome\<close>: what the search for and click on the reload button in
  \<open>click_reload_form_button\<close> returns or raises; \<open>get_ok\<close>: \<open>driver.get\<close> does not raise;
  \<open>clock\<close>: the formatted time when the trip is logged.
\<close>

record page =
  plate_in_main :: bool
  plate_in_iframes :: "bool list"
  located :: "string \<Rightarrow> bool"
  widget :: "string \<Rightarrow> conn_widget"
  write_result :: "string \<Rightarrow> write_outcome"
  submit_present :: bool
  submit_click_ok :: bool
  success_wait :: "exn + bool"
  reload_outcome :: "exn + bool"
  get_ok :: bool
  clock :: string

subsection \<open>Form filling and submission\<close>

text \<open>
  \<open>find_form_context\<close>: when the Plate field is not in the main document the function
  binds \<open>iframes\<close> and then iterates over \<open>frames\<close>, a name bound nowhere, so Python
  raises \<open>NameError\<close> before any iframe is entered.
\<close>

definition find_form_context :: "page \<Rightarrow> exn + bool" where
  "find_form_context p =
     (if plate_in_main p then Inr True
      else let iframes = plate_in_iframes p in
           Inl (NameError ''name 'frames' is not defined''))"

text \<open>
  What the specification asks of \<open>find_form_context\<close>: the Plate field is in the main
  document or in some iframe.
\<close>

definition plate_present :: "page \<Rightarrow> bool" where
  "plate_present p = (plate_in_main p \<or> True \<in> set (plate_in_iframes p))"

definition connection_keys :: "string list" where
  "connection_keys = [''Department'', ''Plate'', ''Driver'']"

definition excel_to_form_map :: "(string \<times> string) list" where
  "excel_to_form_map =
     [(''Department'', ''Department''), (''Plate'', ''Plate''), (''Date'', ''Date''),
      (''Start_Time'', ''Start_Time''), (''Start_Mileage'', ''Start_Mileage''),
      (''End_Time'', ''End_Time''), (''End_Mileage'', ''End_Mileage''),
      (''Destination'', ''Destination''), (''Driver'', ''Driver'')]"

text \<open>
  The body of the \<open>try\<close> in the loop of \<open>fill_all_fields_for_trip\<close> for one field with a
  value: the text recorded in \<open>selected_values\<close>, or the exception raised.
\<close>

definition fill_field :: "page \<Rightarrow> string \<Rightarrow> cell \<Rightarrow> exn + cell" where
  "fill_field p selector_key v =
     (if \<not> located p selector_key then Inl (TimeoutException [])
      else if selector_key \<in> set connection_keys then
        (case fill_connection_field (widget p selector_key) v of
           Some selected_text \<Rightarrow> Inr (Str selected_text)
         | None \<Rightarrow> Inl (Exception (''Failed to select required value for '' @ selector_key)))
      else
        (case write_result p selector_key of
           NativeOk \<Rightarrow> Inr (Str (str v))
         | ScriptedOk \<Rightarrow> Inr (Str (str v))
         | ScriptFails \<Rightarrow> Inl (WebDriverException [])
         | WriteFails \<Rightarrow> Inl (WebDriverException [])))"

text \<open>The first loop: both \<open>except\<close> clauses return \<open>None\<close>.\<close>

fun fill_loop :: "page \<Rightarrow> trip \<Rightarrow> (string \<times> string) list \<Rightarrow> selected \<Rightarrow> selected option" where
  "fill_loop p trip_data [] selected_values = Some selected_values"
| "fill_loop p trip_data ((excel_header, selector_key) # rest) selected_values =
     (let v = get trip_data excel_header (Str []) in
      if \<not> truthy v
      then fill_loop p trip_data rest (selected_values(excel_header \<mapsto> Str ''N/A (Skipped)''))
      else case fill_field p selector_key v of
             Inl e \<Rightarrow> None
           | Inr recorded \<Rightarrow> fill_loop p trip_data rest (selected_values(excel_header \<mapsto> recorded)))"

text \<open>The second loop: keys not yet in \<open>selected_values\<close> get the input value.\<close>

fun log_unfilled :: "trip \<Rightarrow> string list \<Rightarrow> selected \<Rightarrow> selected" where
  "log_unfilled trip_data [] selected_values = selected_values"
| "log_unfilled trip_data (key # keys) selected_values =
     log_unfilled trip_data keys
       (if selected_values key = None
        then selected_values(key \<mapsto> get trip_data key (Str ''N/A''))
        else selected_values)"

definition fill_all_fields_for_trip :: "page \<Rightarrow> trip \<Rightarrow> selected option" where
  "fill_all_fields_for_trip p trip_data =
     (case fill_loop p trip_data excel_to_form_map Map.empty of
        None \<Rightarrow> None
      | Some selected_values \<Rightarrow>
          Some (log_unfilled trip_data (map fst excel_to_form_map) selected_values))"

definition click_submit_and_wait_success :: "page \<Rightarrow> world \<Rightarrow> (exn + unit) \<times> world" where
  "click_submit_and_wait_success p w =
     (if \<not> submit_present p then (Inl (TimeoutException ''Could not locate Submit button''), w)
      else if \<not> submit_click_ok p then (Inl (WebDriverException []), w)
      else let w' = w\<lparr>submit_clicks := submit_clicks w + 1\<rparr> in
           case success_wait p of
             Inl e \<Rightarrow> (Inl e, w')
           | Inr found \<Rightarrow> (Inr (), w'))"

definition click_reload_form_button :: "page \<Rightarrow> world \<Rightarrow> (exn + bool) \<times> world" where
  "click_reload_form_button p w = (reload_outcome p, w\<lparr>reload_calls := reload_calls w + 1\<rparr>)"

text \<open>\<open>driver.get(WEBSITE_URL)\<close>\<close>

definition driver_get :: "page \<Rightarrow> world \<Rightarrow> (exn + unit) \<times> world" where
  "driver_get p w =
     (if get_ok p then (Inr (), w\<lparr>navigations := navigations w + 1\<rparr>)
      else (Inl (WebDriverException []), w))"

text \<open>
  The \<open>try\<close> block of \<open>fill_and_submit_trip\<close>: what it returns or raises, and the values
  of \<open>selected_values\<close> (\<open>None\<close> for Python's \<open>None\<close>) and of \<open>success\<close> when it ends.
\<close>

definition trip_try_block ::
    "page \<Rightarrow> trip \<Rightarrow> bool \<Rightarrow> world \<Rightarrow> (exn + bool) \<times> selected option \<times> bool \<times> world" where
  "trip_try_block p trip_data is_last_trip w =
     (case find_form_context p of
        Inl e \<Rightarrow> (Inl e, Some Map.empty, False, w)
      | Inr False \<Rightarrow> (Inl (Exception ''Could not locate form fields''), Some Map.empty, False, w)
      | Inr True \<Rightarrow>
         (case fill_all_fields_for_trip p trip_data of
            None \<Rightarrow>
              (Inl (Exception ''Form field filling failed. See console warnings.''), None, False, w)
          | Some selected_values \<Rightarrow>
             (case click_submit_and_wait_success p w of
                (Inl e, w1) \<Rightarrow> (Inl e, Some selected_values, False, w1)
              | (Inr u, w1) \<Rightarrow>
                  if \<not> is_last_trip then
                    (case click_reload_form_button p w1 of
                       (Inl e, w2) \<Rightarrow> (Inl e, Some selected_values, True, w2)
                     | (Inr True, w2) \<Rightarrow> (Inr True, Some selected_values, True, w2)
                     | (Inr False, w2) \<Rightarrow>
                         (case driver_get p w2 of
                            (Inl e, w3) \<Rightarrow> (Inl e, Some selected_values, True, w3)
                          | (Inr u', w3) \<Rightarrow> (Inr True, Some selected_values, True, w3)))
                  else (Inr True, Some selected_values, True, w1))))"

text \<open>
  \<open>fill_and_submit_trip\<close>: the \<open>except\<close> clause records the message, navigates back to the
  entry URL (an exception there is swallowed) and returns \<open>False\<close>; the \<open>finally\<close> clause
  calls \<open>log_submission\<close>, and an exception raised there replaces the return value.
\<close>

definition fill_and_submit_trip ::
    "page \<Rightarrow> trip \<Rightarrow> nat \<Rightarrow> bool \<Rightarrow> world \<Rightarrow> (exn + bool) \<times> world" where
  "fill_and_submit_trip p trip_data trip_index is_last_trip w =
     (case trip_try_block p trip_data is_last_trip w of
        (r, selected_values, success, w1) \<Rightarrow>
          (let (ret, error_message, w2) =
                 (case r of
                    Inr b \<Rightarrow> (b, [], w1)
                  | Inl e \<Rightarrow> (False, str_exn e, snd (driver_get p w1)))
           in case log_submission (clock p) trip_data selected_values
                     (if success then ''SUCCESS'' else ''FAILED'') error_message w2 of
                (Inl e, w3) \<Rightarrow> (Inl e, w3)
              | (Inr u, w3) \<Rightarrow> (Inr ret, w3)))"

subsection \<open>The batch\<close>

text \<open>
  The loop of \<open>run_automation\<close> over the trip entries, each with the page it meets.
  An exception leaves the loop; otherwise the loop ends with \<open>success_count\<close>.
\<close>

fun process_trips ::
    "nat \<Rightarrow> nat \<Rightarrow> (trip \<times> page) list \<Rightarrow> nat \<Rightarrow> world \<Rightarrow> (exn + nat) \<times> world" where
  "process_trips total_trips i [] success_count w = (Inr success_count, w)"
| "process_trips total_trips i ((trip_data, p) # rest) success_count w =
     (let is_last = (i + 1 = total_trips) in
      case fill_and_submit_trip p trip_data i is_last w of
        (Inl e, w') \<Rightarrow> (Inl e, w')
      | (Inr success, w') \<Rightarrow>
          process_trips total_trips (i + 1) rest
            (if success then success_count + 1 else success_count) w')"

text \<open>
  \<open>run_automation\<close> from \<open>initialize_log()\<close> on, for the trip entries that
  \<open>load_and_clean_data\<close> returned. The browser is taken to start; \<open>landing\<close> is the page
  that the first \<open>driver.get(WEBSITE_URL)\<close> meets, and an exception there ends the run
  before any trip. \<open>Inl\<close> is the exception that the outer \<open>except\<close> clause reports,
  \<open>Inr\<close> the count of the final message.
\<close>

definition run_automation :: "page \<Rightarrow> (trip \<times> page) list \<Rightarrow> world \<Rightarrow> (exn + nat) \<times> world" where
  "run_automation landing trip_entries w =
     (let total_trips = length trip_entries in
      case driver_get landing (initialize_log w) of
        (Inl e, w') \<Rightarrow> (Inl e, w')
      | (Inr u, w') \<Rightarrow> process_trips total_trips 0 trip_entries 0 w')"

definition EXCEL_COLUMNS :: "string list" where
  "EXCEL_COLUMNS = [''Department'', ''Plate'', ''Date'', ''Start_Time'', ''Start_Mileage'',
                    ''End_Time'', ''End_Mileage'', ''Destination'', ''Driver'']"

text \<open>
  The \<open>try\<close> block of \<open>fill_and_submit_trip\<close> reaches \<open>success = True\<close>: the form is
  located, every field is filled and \<open>click_submit_and_wait_success\<close> returns.
\<close>

definition submitted :: "page \<Rightarrow> trip \<Rightarrow> bool" where
  "submitted p trip_data =
     (find_form_context p = Inr True \<and> fill_all_fields_for_trip p trip_data \<noteq> None
      \<and> submit_present p \<and> submit_click_ok p \<and> \<not> isl (success_wait p))"

subsection \<open>Sample inputs\<close>

definition listing :: "string list \<Rightarrow> conn_widget" where
  "listing opts =
     \<lparr>search_input = True, typing_ok = True,
      results = [\<lparr>displayed = True, item_texts = opts, click_ok = True\<rparr>],
      keyboard_ok = True\<rparr>"

definition sample_trip :: trip where
  "sample_trip =
     [''Department'' \<mapsto> Str ''Acme East'', ''Plate'' \<mapsto> Str ''HTX 204'',
      ''Date'' \<mapsto> Str ''03/14/2025'', ''Start_Time'' \<mapsto> Str ''08:15'',
      ''Start_Mileage'' \<mapsto> Num 48210, ''End_Time'' \<mapsto> Str ''09:40'',
      ''End_Mileage'' \<mapsto> Num 48262, ''Destination'' \<mapsto> Str [],
      ''Driver'' \<mapsto> Str ''Kai Nakamura'']"

text \<open>A page on which every step goes through.\<close>

definition ok_page :: page where
  "ok_page =
     \<lparr>plate_in_main = True, plate_in_iframes = [],
      located = (\<lambda>key. True),
      widget = (\<lambda>key. if key = ''Department''
                          then listing [''Acme East'', ''Acme East Annex'', ''Beta Co'']
                        else if key = ''Plate'' then listing [''HTX 204 - Ford - Escape'']
                        else listing [''Lani Akana'', ''Kai Nakamura'']),
      write_result = (\<lambda>key. NativeOk),
      submit_present = True, submit_click_ok = True,
      success_wait = Inr True, reload_outcome = Inr True, get_ok = True,
      clock = ''2025-03-14 10:02:31''\<rparr>"

text \<open>The same page with the form inside the first iframe only.\<close>

definition iframe_page :: page where
  "iframe_page = ok_page\<lparr>plate_in_main := False, plate_in_iframes := [True]\<rparr>"

text \<open>The same page, but the wait for the Plate field times out.\<close>

definition plate_timeout_page :: page where
  "plate_timeout_page = ok_page\<lparr>located := (\<lambda>key. key \<noteq> ''Plate'')\<rparr>"

text \<open>The same page, but the Department dropdown lists no option for the query.\<close>

definition no_options_page :: page where
  "no_options_page = ok_page\<lparr>widget := (\<lambda>key. if key = ''Department'' then listing []
                                                else widget ok_page key)\<rparr>"

text \<open>The same page without a submit control.\<close>

definition no_submit_page :: page where
  "no_submit_page = ok_page\<lparr>submit_present := False\<rparr>"

text \<open>The same page, but no success indicator shows up after the click on submit.\<close>

definition no_banner_page :: page where
  "no_banner_page = ok_page\<lparr>success_wait := Inr False\<rparr>"

definition fresh_world :: world where
  "fresh_world = \<lparr>ledger = None, submit_clicks = 0, reload_calls = 0, navigations = 0\<rparr>"

text \<open>The same page, but typing into the search input of a connection field raises.\<close>

definition dead_input_page :: page where
  "dead_input_page = ok_page\<lparr>widget := (\<lambda>key. (widget ok_page key)\<lparr>typing_ok := False\<rparr>)\<rparr>"

subsection \<open>Loading the trip records\<close>

text \<open>
  \<open>load_and_clean_data\<close> works on a pandas data frame. The model keeps what the function
  relies on: the column labels in order (labels may repeat) and the rows, whose cells
  are a value or missing (\<open>None\<close>, pandas' NaN). The file system gives, for a path,
  whether the file exists and what \<open>pd.read_excel\<close> and \<open>pd.read_csv\<close> return for it: a
  frame, or the message of the exception they raise. Renaming columns, filling missing
  cells and building the records are taken not to raise.
\<close>

record frame =
  columns :: "string list"
  rows :: "cell option list list"
























section \<open>Properties\<close>

subsection \<open>The dropdown resolver\<close>

lemma scan_items_best:
  "fst (scan_items t xs pm) = find (\<lambda>it. lower (strip it) = t) xs"
  by (induction xs arbitrary: pm) (auto simp: Let_def)

lemma scan_items_partial:
  "find (\<lambda>it. lower (strip it) = t) xs = None \<Longrightarrow>
   snd (scan_items t xs pm) =
     (case pm of Some p \<Rightarrow> Some p | None \<Rightarrow> find (\<lambda>it. contains t (lower (strip it))) xs)"
  by (induction xs arbitrary: pm) (auto simp: Let_def split: option.splits)

lemma item_to_click_policy:
  "item_to_click t xs =
     (case find (\<lambda>it. lower (strip it) = t) xs of
        Some b \<Rightarrow> b
      | None \<Rightarrow> (case find (\<lambda>it. contains t (lower (strip it))) xs of
                   Some p \<Rightarrow> p
                 | None \<Rightarrow> hd xs))"
proof (cases "find (\<lambda>it. lower (strip it) = t) xs")
  case None
  with scan_items_best [of t xs None] scan_items_partial [of t xs None]
  show ?thesis
    by (cases "scan_items t xs None") (auto simp: item_to_click_def split: option.splits)
next
  case (Some b)
  with scan_items_best [of t xs None]
  show ?thesis
    by (cases "scan_items t xs None") (auto simp: item_to_click_def split: option.splits)
qed

text \<open>
  C3. When typing goes through and the field shows one visible, clickable list of
  options that is not empty, the resolver returns the trimmed text of: the first option
  equal to the requested value (case-insensitively, after trimming) if there is one;
  otherwise the first option that contains the requested value (case-insensitively) if
  there is one; otherwise the first option.
\<close>

theorem resolver_priority:
  assumes "typing_ok w" and "results w = [rl]" and "displayed rl" and "click_ok rl"
    and "item_texts rl = opts" and "opts \<noteq> []"
  shows "type_and_select_connection_option w text =
     Some (strip
       (case find (\<lambda>it. lower (strip it) = lower (strip text)) opts of
          Some exact \<Rightarrow> exact
        | None \<Rightarrow> (case find (\<lambda>it. contains (lower (strip text)) (lower (strip it))) opts of
                     Some partial \<Rightarrow> partial
                   | None \<Rightarrow> hd opts)))"
  using assms by (simp add: type_and_select_connection_option_def item_to_click_policy)

text \<open>
  For the options Acme East, Acme East Annex, Beta Co and the request Acme East the
  selection is Acme East.
\<close>

theorem resolver_priority_witness:
  "type_and_select_connection_option
     (listing [''Acme East'', ''Acme East Annex'', ''Beta Co'']) ''Acme East''
   = Some ''Acme East''"
  using resolver_priority [of "listing [''Acme East'', ''Acme East Annex'', ''Beta Co'']"
      "\<lparr>displayed = True, item_texts = [''Acme East'', ''Acme East Annex'', ''Beta Co''],
        click_ok = True\<rparr>"
      "[''Acme East'', ''Acme East Annex'', ''Beta Co'']" "''Acme East''"]
  by (simp add: listing_def strip_def lower_def lower_char_def is_space_def)

subsection \<open>The form filler\<close>

lemma fill_loop_other_keys:
  "fill_loop p t fs sel = Some m \<Longrightarrow> k \<notin> fst ` set fs \<Longrightarrow> m k = sel k"
  by (induction fs arbitrary: sel) (auto simp: Let_def split: if_splits sum.splits)

lemma fill_loop_dom:
  "fill_loop p t fs sel = Some m \<Longrightarrow> dom m = dom sel \<union> fst ` set fs"
proof (induction fs arbitrary: sel)
  case Nil
  then show ?case by simp
next
  case (Cons f fs)
  obtain h s where f: "f = (h, s)" by (cases f)
  from Cons.prems f obtain v where "fill_loop p t fs (sel(h \<mapsto> v)) = Some m"
    by (auto simp: Let_def split: if_splits sum.splits)
  from Cons.IH [OF this] f show ?case by auto
qed

lemma fill_loop_skipped:
  "fill_loop p t fs sel = Some m \<Longrightarrow> distinct (map fst fs) \<Longrightarrow> k \<in> fst ` set fs \<Longrightarrow>
   \<not> truthy (get t k (Str [])) \<Longrightarrow> m k = Some (Str ''N/A (Skipped)'')"
proof (induction fs arbitrary: sel)
  case Nil
  then show ?case by simp
next
  case (Cons f fs)
  obtain h s where f: "f = (h, s)" by (cases f)
  show ?case
  proof (cases "k = h")
    case True
    with Cons.prems f have nk: "k \<notin> fst ` set fs" by auto
    from Cons.prems(1,4) f True
    have "fill_loop p t fs (sel(k \<mapsto> Str ''N/A (Skipped)'')) = Some m"
      by (simp add: Let_def)
    from fill_loop_other_keys [OF this nk] show ?thesis by simp
  next
    case False
    with Cons.prems f have kin: "k \<in> fst ` set fs" and d: "distinct (map fst fs)" by auto
    from Cons.prems(1) f obtain sel' where "fill_loop p t fs sel' = Some m"
      by (auto simp: Let_def split: if_splits sum.splits)
    from Cons.IH [OF this d kin Cons.prems(4)] show ?thesis .
  qed
qed

lemma fill_loop_None_iff:
  "fill_loop p t fs sel = None \<longleftrightarrow>
     (\<exists>(h, s) \<in> set fs. truthy (get t h (Str [])) \<and> isl (fill_field p s (get t h (Str []))))"
proof (induction fs arbitrary: sel)
  case Nil
  then show ?case by simp
next
  case (Cons f fs)
  obtain h s where f: "f = (h, s)" by (cases f)
  show ?case
  proof (cases "truthy (get t h (Str []))")
    case False
    with f Cons.IH show ?thesis by (simp add: Let_def)
  next
    case True
    show ?thesis
    proof (cases "fill_field p s (get t h (Str []))")
      case (Inl e)
      with f True show ?thesis by (simp add: Let_def)
    next
      case (Inr v)
      with f True Cons.IH show ?thesis by (simp add: Let_def)
    qed
  qed
qed

lemma log_unfilled_id: "set ks \<subseteq> dom m \<Longrightarrow> log_unfilled t ks m = m"
  by (induction ks arbitrary: m) auto

lemma excel_to_form_map_keys: "map fst excel_to_form_map = EXCEL_COLUMNS"
  by (simp add: excel_to_form_map_def EXCEL_COLUMNS_def)

lemma excel_to_form_map_same: "(h, s) \<in> set excel_to_form_map \<Longrightarrow> s = h \<and> h \<in> set EXCEL_COLUMNS"
  by (auto simp: excel_to_form_map_def EXCEL_COLUMNS_def)

lemma EXCEL_COLUMNS_in_map: "h \<in> set EXCEL_COLUMNS \<Longrightarrow> (h, h) \<in> set excel_to_form_map"
  by (auto simp: excel_to_form_map_def EXCEL_COLUMNS_def)

lemma distinct_EXCEL_COLUMNS: "distinct EXCEL_COLUMNS"
  by (simp add: EXCEL_COLUMNS_def)

lemma fill_all_Some:
  assumes "fill_all_fields_for_trip p t = Some m"
  shows "fill_loop p t excel_to_form_map Map.empty = Some m"
proof -
  from assms obtain m0 where m0: "fill_loop p t excel_to_form_map Map.empty = Some m0"
    and m: "m = log_unfilled t (map fst excel_to_form_map) m0"
    by (auto simp: fill_all_fields_for_trip_def split: option.splits)
  from fill_loop_dom [OF m0] have "set (map fst excel_to_form_map) \<subseteq> dom m0" by auto
  from log_unfilled_id [OF this] m m0 show ?thesis by simp
qed

lemma fill_all_None_iff:
  "fill_all_fields_for_trip p t = None \<longleftrightarrow>
     (\<exists>k \<in> set EXCEL_COLUMNS. truthy (get t k (Str [])) \<and> isl (fill_field p k (get t k (Str []))))"
proof -
  have "fill_all_fields_for_trip p t = None \<longleftrightarrow> fill_loop p t excel_to_form_map Map.empty = None"
    by (simp add: fill_all_fields_for_trip_def split: option.splits)
  also have "\<dots> \<longleftrightarrow> (\<exists>(h, s) \<in> set excel_to_form_map.
        truthy (get t h (Str [])) \<and> isl (fill_field p s (get t h (Str []))))"
    by (rule fill_loop_None_iff)
  also have "\<dots> \<longleftrightarrow> (\<exists>k \<in> set EXCEL_COLUMNS.
        truthy (get t k (Str [])) \<and> isl (fill_field p k (get t k (Str []))))"
    using excel_to_form_map_same EXCEL_COLUMNS_in_map by fastforce
  finally show ?thesis .
qed

lemmas eval_defs = fill_all_fields_for_trip_def excel_to_form_map_def fill_field_def
  fill_connection_field_def type_and_select_connection_option_def item_to_click_def
  connection_keys_def listing_def get_def truthy_def str_def strip_def lower_def
  lower_char_def is_space_def sample_trip_def Let_def

lemma fill_ok_sample: "fill_all_fields_for_trip ok_page sample_trip \<noteq> None"
  by (simp add: eval_defs ok_page_def)

text \<open>
  C7. When \<open>fill_all_fields_for_trip\<close> returns a mapping, its keys are exactly the nine
  logical fields, and every field whose input value is empty (or otherwise false in
  Python) holds the marker \<open>N/A (Skipped)\<close>. The function returns \<open>None\<close> exactly when
  filling some field that has a value raises; it never raises itself.
\<close>

theorem fill_outcome_complete:
  "(\<forall>m. fill_all_fields_for_trip p t = Some m \<longrightarrow>
        dom m = set EXCEL_COLUMNS
        \<and> (\<forall>k \<in> set EXCEL_COLUMNS. \<not> truthy (get t k (Str [])) \<longrightarrow>
               m k = Some (Str ''N/A (Skipped)'')))
   \<and> (fill_all_fields_for_trip p t = None \<longleftrightarrow>
        (\<exists>k \<in> set EXCEL_COLUMNS. truthy (get t k (Str []))
                                 \<and> isl (fill_field p k (get t k (Str [])))))"
proof (intro conjI allI impI ballI)
  fix m assume m: "fill_all_fields_for_trip p t = Some m"
  from fill_loop_dom [OF fill_all_Some [OF m]] excel_to_form_map_keys
  show "dom m = set EXCEL_COLUMNS" by (metis dom_empty set_map sup_bot.left_neutral)
next
  fix m k assume m: "fill_all_fields_for_trip p t = Some m" and k: "k \<in> set EXCEL_COLUMNS"
    and e: "\<not> truthy (get t k (Str []))"
  have d: "distinct (map fst excel_to_form_map)"
    by (simp add: excel_to_form_map_keys distinct_EXCEL_COLUMNS)
  have kin: "k \<in> fst ` set excel_to_form_map"
    using k excel_to_form_map_keys by (metis set_map)
  from fill_loop_skipped [OF fill_all_Some [OF m] d kin e]
  show "m k = Some (Str ''N/A (Skipped)'')" .
next
  show "fill_all_fields_for_trip p t = None \<longleftrightarrow>
        (\<exists>k \<in> set EXCEL_COLUMNS. truthy (get t k (Str []))
                                 \<and> isl (fill_field p k (get t k (Str []))))"
    by (rule fill_all_None_iff)
qed

text \<open>On the sample page all nine fields are recorded and the empty Destination is marked
  as skipped; when the Plate field cannot be located the result is \<open>None\<close>.\<close>

theorem fill_outcome_complete_witness:
  "(\<exists>m. fill_all_fields_for_trip ok_page sample_trip = Some m \<and> dom m = set EXCEL_COLUMNS
        \<and> m ''Destination'' = Some (Str ''N/A (Skipped)''))
   \<and> fill_all_fields_for_trip plate_timeout_page sample_trip = None"
proof -
  from fill_ok_sample obtain m where m: "fill_all_fields_for_trip ok_page sample_trip = Some m"
    by blast
  have k: "''Destination'' \<in> set EXCEL_COLUMNS" by (simp add: EXCEL_COLUMNS_def)
  have e: "\<not> truthy (get sample_trip ''Destination'' (Str []))"
    by (simp add: get_def truthy_def sample_trip_def)
  have p: "''Plate'' \<in> set EXCEL_COLUMNS" by (simp add: EXCEL_COLUMNS_def)
  have f: "truthy (get sample_trip ''Plate'' (Str []))
           \<and> isl (fill_field plate_timeout_page ''Plate'' (get sample_trip ''Plate'' (Str [])))"
    by (simp add: get_def truthy_def sample_trip_def fill_field_def plate_timeout_page_def)
  from fill_outcome_complete [of ok_page sample_trip] m k e
  have "dom m = set EXCEL_COLUMNS \<and> m ''Destination'' = Some (Str ''N/A (Skipped)'')" by blast
  moreover from fill_outcome_complete [of plate_timeout_page sample_trip] p f
  have "fill_all_fields_for_trip plate_timeout_page sample_trip = None" by blast
  ultimately show ?thesis using m by blast
qed

subsection \<open>The ledger row\<close>

text \<open>
  C9. For each connection field (Department, Plate, Driver; input columns 3, 5 and 13 of
  the row, counted from 0), when the selected-values mapping has no entry for the field,
  the Actual Selected column next to it holds the input value, so it equals the input
  column; and \<open>log_submission\<close> does the same as for a mapping that records the input
  value as the selection.
\<close>

theorem actual_selected_defaults_to_input:
  assumes "(field, i) \<in> {(''Department'', 3), (''Plate'', 5), (''Driver'', 13)}"
    and "trip_data_selected field = None"
  shows "ledger_row ts trip_data_excel trip_data_selected status error_msg ! (i + 1)
           = get trip_data_excel field (Str ''N/A'')
       \<and> ledger_row ts trip_data_excel trip_data_selected status error_msg ! (i + 1)
           = ledger_row ts trip_data_excel trip_data_selected status error_msg ! i
       \<and> log_submission ts trip_data_excel
            (Some (trip_data_selected(field \<mapsto> get trip_data_excel field (Str ''N/A''))))
            status error_msg w
           = log_submission ts trip_data_excel (Some trip_data_selected) status error_msg w"
  using assms
  by (auto simp: ledger_row_def log_submission_def get_def simple_fields_def)

text \<open>For the sample trip and an empty mapping the Department selection reads Acme East.\<close>

theorem actual_selected_defaults_to_input_witness:
  "ledger_row ''2025-03-14 10:02:31'' sample_trip Map.empty ''FAILED'' ''x'' ! 4 = Str ''Acme East''
   \<and> log_submission ''2025-03-14 10:02:31'' sample_trip
         (Some [''Department'' \<mapsto> Str ''Acme East'']) ''FAILED'' ''x'' fresh_world
     = log_submission ''2025-03-14 10:02:31'' sample_trip (Some Map.empty) ''FAILED'' ''x'' fresh_world"
  using actual_selected_defaults_to_input [of "''Department''" 3 Map.empty
      "''2025-03-14 10:02:31''" sample_trip "''FAILED''" "''x''" fresh_world]
  by (simp add: get_def sample_trip_def)

subsection \<open>Locating the form\<close>

text \<open>
  C5. On a page whose Plate field is in the first iframe only, so that the form is
  present, \<open>find_form_context\<close> raises \<open>NameError\<close> instead of returning \<open>True\<close>, and the trip
  is logged as FAILED with the message of that error.
\<close>

theorem find_form_context_iframe_only:
  "plate_present iframe_page
   \<and> find_form_context iframe_page = Inl (NameError ''name 'frames' is not defined'')
   \<and> fill_and_submit_trip iframe_page sample_trip 0 True fresh_world
       = (Inr False,
          fresh_world\<lparr>ledger := Some [ledger_row (clock iframe_page) sample_trip Map.empty
                                       ''FAILED'' ''name 'frames' is not defined''],
                       navigations := 1\<rparr>)"
  by (simp add: plate_present_def find_form_context_def iframe_page_def ok_page_def
        fill_and_submit_trip_def trip_try_block_def driver_get_def log_submission_def
        fresh_world_def)

subsection \<open>The trip pipeline\<close>

lemmas trip_defs = fill_and_submit_trip_def trip_try_block_def
  click_submit_and_wait_success_def click_reload_form_button_def driver_get_def
  log_submission_def

lemma trip_submit_clicks_fill_None:
  "fill_all_fields_for_trip p t = None \<Longrightarrow>
   submit_clicks (snd (fill_and_submit_trip p t i is_last w)) = submit_clicks w"
  by (auto simp: trip_defs Let_def split: sum.splits bool.splits)

text \<open>
  Whenever the form is located and the filler returns \<open>None\<close>, the \<open>finally\<close> clause
  raises: the trip returns no boolean, and the ledger keeps the rows it had.
\<close>

lemma trip_fill_None:
  "find_form_context p = Inr True \<Longrightarrow> fill_all_fields_for_trip p t = None \<Longrightarrow>
   fill_and_submit_trip p t i is_last w =
     (Inl (AttributeError none_has_no_get),
      (snd (driver_get p w))\<lparr>ledger := Some (case ledger w of None \<Rightarrow> [] | Some rs \<Rightarrow> rs)\<rparr>)"
  by (auto simp: trip_defs Let_def split: sum.splits bool.splits)

lemma trip_reload_calls:
  "reload_calls (snd (fill_and_submit_trip p t i is_last w)) =
     reload_calls w + (if submitted p t \<and> \<not> is_last then 1 else 0)"
  by (auto simp: trip_defs submitted_def Let_def split: sum.splits bool.splits option.splits)

lemma trip_navigations:
  "navigations (snd (fill_and_submit_trip p t i is_last w)) =
     navigations w
     + (if get_ok p \<and> (\<not> submitted p t \<or> (\<not> is_last \<and> reload_outcome p \<noteq> Inr True))
        then 1 else 0)"
  by (auto simp: trip_defs submitted_def Let_def split: sum.splits bool.splits option.splits)

lemma scan_results_lists_no_items:
  "\<forall>rl \<in> set rls. item_texts rl = [] \<Longrightarrow> scan_results_lists t rls = None"
  by (induction rls) auto

lemma connection_keys_columns: "key \<in> set connection_keys \<Longrightarrow> key \<in> set EXCEL_COLUMNS"
  by (auto simp: connection_keys_def EXCEL_COLUMNS_def)

lemma resolver_None_fill_field:
  "key \<in> set connection_keys \<Longrightarrow>
   type_and_select_connection_option (widget p key) (strip (str v)) = None \<Longrightarrow>
   isl (fill_field p key v)"
  by (simp add: fill_field_def fill_connection_field_def Let_def)

text \<open>
  C4, as stated, fails: when the Department dropdown lists no option, the resolver
  falls back to the keyboard and returns the requested text, the filler does not abort
  and the form is submitted.
\<close>

theorem zero_options_counterexample:
  "concat (map item_texts (results (widget no_options_page ''Department''))) = []
   \<and> type_and_select_connection_option (widget no_options_page ''Department'') ''Acme East''
       = Some ''Acme East''
   \<and> fill_all_fields_for_trip no_options_page sample_trip \<noteq> None
   \<and> fst (fill_and_submit_trip no_options_page sample_trip 0 True fresh_world) = Inr True
   \<and> submit_clicks (snd (fill_and_submit_trip no_options_page sample_trip 0 True fresh_world)) = 1"
  by (simp add: eval_defs trip_defs find_form_context_def no_options_page_def ok_page_def
        fresh_world_def)

text \<open>
  C4, amended. When typing goes through and no result list has an option, the resolver
  presses arrow down and enter and returns the requested text; it reports failure only
  when those keys raise. Whenever the resolver reports failure for a connection field
  that has a value, \<open>fill_all_fields_for_trip\<close> returns \<open>None\<close>, and then the trip
  pipeline does not click submit.
\<close>

theorem zero_options_keyboard_fallback:
  "(typing_ok cw \<and> (\<forall>rl \<in> set (results cw). item_texts rl = []) \<longrightarrow>
      type_and_select_connection_option cw text = (if keyboard_ok cw then Some text else None))
   \<and> (key \<in> set connection_keys \<and> truthy (get t key (Str []))
        \<and> type_and_select_connection_option (widget p key) (strip (str (get t key (Str [])))) = None
      \<longrightarrow> fill_all_fields_for_trip p t = None)
   \<and> (fill_all_fields_for_trip p t = None \<longrightarrow>
        submit_clicks (snd (fill_and_submit_trip p t i is_last w)) = submit_clicks w)"
proof (intro conjI impI)
  assume "typing_ok cw \<and> (\<forall>rl \<in> set (results cw). item_texts rl = [])"
  then show "type_and_select_connection_option cw text = (if keyboard_ok cw then Some text else None)"
    by (simp add: type_and_select_connection_option_def scan_results_lists_no_items)
next
  assume a: "key \<in> set connection_keys \<and> truthy (get t key (Str []))
        \<and> type_and_select_connection_option (widget p key) (strip (str (get t key (Str [])))) = None"
  then have "isl (fill_field p key (get t key (Str [])))"
    by (simp add: resolver_None_fill_field)
  with a connection_keys_columns show "fill_all_fields_for_trip p t = None"
    unfolding fill_all_None_iff by blast
next
  assume "fill_all_fields_for_trip p t = None"
  then show "submit_clicks (snd (fill_and_submit_trip p t i is_last w)) = submit_clicks w"
    by (rule trip_submit_clicks_fill_None)
qed

text \<open>
  With no option listed the request Acme East is returned; on the page whose search
  inputs reject typing the filler returns \<open>None\<close> and submit is not clicked.
\<close>

theorem zero_options_keyboard_fallback_witness:
  "type_and_select_connection_option (listing []) ''Acme East'' = Some ''Acme East''
   \<and> fill_all_fields_for_trip dead_input_page sample_trip = None
   \<and> submit_clicks (snd (fill_and_submit_trip dead_input_page sample_trip 0 True fresh_world)) = 0"
proof -
  note t = zero_options_keyboard_fallback [of "listing []" "''Acme East''" "''Department''"
      sample_trip dead_input_page 0 True fresh_world]
  have 1: "typing_ok (listing []) \<and> (\<forall>rl \<in> set (results (listing [])). item_texts rl = [])"
    by (simp add: listing_def)
  have 2: "''Department'' \<in> set connection_keys
           \<and> truthy (get sample_trip ''Department'' (Str []))
           \<and> type_and_select_connection_option (widget dead_input_page ''Department'')
                 (strip (str (get sample_trip ''Department'' (Str [])))) = None"
    by (simp add: connection_keys_def truthy_def get_def sample_trip_def dead_input_page_def
          type_and_select_connection_option_def)
  from t 1 have "type_and_select_connection_option (listing []) ''Acme East''
                 = (if keyboard_ok (listing []) then Some ''Acme East'' else None)" by blast
  then have a: "type_and_select_connection_option (listing []) ''Acme East'' = Some ''Acme East''"
    by (simp add: listing_def)
  from t 2 have b: "fill_all_fields_for_trip dead_input_page sample_trip = None" by blast
  with t have "submit_clicks (snd (fill_and_submit_trip dead_input_page sample_trip 0 True fresh_world))
               = submit_clicks fresh_world" by blast
  with a b show ?thesis by (simp add: fresh_world_def)
qed

text \<open>
  C6. When the form is located, every field is filled, the submit control is found and
  clicked, and the wait for the success indicator ends without finding one, the ledger
  row of the trip has status SUCCESS; and the pipeline returns \<open>True\<close> when the trip
  is the last one or the reset for the next entry does not raise.
\<close>

theorem missing_success_indicator_is_success:
  assumes "find_form_context p = Inr True" and "fill_all_fields_for_trip p t = Some sel"
    and "submit_present p" and "submit_click_ok p" and "success_wait p = Inr False"
  shows "(\<exists>err. ledger (snd (fill_and_submit_trip p t i is_last w)) =
             Some ((case ledger w of None \<Rightarrow> [] | Some rs \<Rightarrow> rs)
                   @ [ledger_row (clock p) t sel ''SUCCESS'' err]))
       \<and> (is_last \<or> reload_outcome p = Inr True \<or> (reload_outcome p = Inr False \<and> get_ok p)
            \<longrightarrow> fst (fill_and_submit_trip p t i is_last w) = Inr True)"
  using assms
  by (auto simp: trip_defs Let_def split: sum.splits bool.splits option.splits)

lemma fill_no_banner_sample: "fill_all_fields_for_trip no_banner_page sample_trip \<noteq> None"
  by (simp add: eval_defs ok_page_def no_banner_page_def)

text \<open>On the sample page without a success indicator the trip is logged as SUCCESS.\<close>

theorem missing_success_indicator_is_success_witness:
  "\<exists>sel err. ledger (snd (fill_and_submit_trip no_banner_page sample_trip 0 True fresh_world))
               = Some [ledger_row (clock no_banner_page) sample_trip sel ''SUCCESS'' err]
           \<and> fst (fill_and_submit_trip no_banner_page sample_trip 0 True fresh_world) = Inr True"
proof -
  from fill_no_banner_sample obtain sel
    where sel: "fill_all_fields_for_trip no_banner_page sample_trip = Some sel" by blast
  have f: "find_form_context no_banner_page = Inr True"
    by (simp add: find_form_context_def no_banner_page_def ok_page_def)
  have s: "submit_present no_banner_page" "submit_click_ok no_banner_page"
      "success_wait no_banner_page = Inr False"
    by (simp_all add: no_banner_page_def ok_page_def)
  from missing_success_indicator_is_success [OF f sel s, of 0 True fresh_world]
  show ?thesis by (auto simp: fresh_world_def)
qed

subsection \<open>The batch\<close>

lemma trip_submitted_returns:
  "submitted p t \<Longrightarrow> \<exists>b. fst (fill_and_submit_trip p t i is_last w) = Inr b"
  by (auto simp: trip_defs submitted_def Let_def split: sum.splits bool.splits option.splits)

lemma process_trips_reload_completed:
  "i + length batch = tot \<Longrightarrow> fst (process_trips tot i batch c w) = Inr n \<Longrightarrow>
   reload_calls (snd (process_trips tot i batch c w)) =
     reload_calls w + length (filter (\<lambda>(t, p). submitted p t) (butlast batch))"
proof (induction batch arbitrary: i c w)
  case Nil
  then show ?case by simp
next
  case (Cons tp rest)
  obtain t p where tp: "tp = (t, p)" by (cases tp)
  from Cons.prems(1) have last: "(i + 1 = tot) = (rest = [])" by auto
  obtain r w' where step: "fill_and_submit_trip p t i (rest = []) w = (r, w')"
    by (cases "fill_and_submit_trip p t i (rest = []) w")
  from trip_reload_calls [of p t i "rest = []" w] step
  have rc: "reload_calls w' = reload_calls w + (if submitted p t \<and> rest \<noteq> [] then 1 else 0)"
    by simp
  show ?case
  proof (cases r)
    case (Inl e)
    with Cons.prems(2) tp last step show ?thesis by simp
  next
    case (Inr b)
    let ?c = "if b then c + 1 else c"
    from Cons.prems(1) have len: "(i + 1) + length rest = tot" by simp
    from Cons.prems(2) tp last step Inr
    have fin: "fst (process_trips tot (i + 1) rest ?c w') = Inr n" by simp
    from Cons.IH [OF len fin] tp last step Inr rc show ?thesis by simp
  qed
qed

lemma process_trips_reload_bound:
  "i + length batch = tot \<Longrightarrow>
   reload_calls (snd (process_trips tot i batch c w)) \<le> reload_calls w + (length batch - 1)"
proof (induction batch arbitrary: i c w)
  case Nil
  then show ?case by simp
next
  case (Cons tp rest)
  obtain t p where tp: "tp = (t, p)" by (cases tp)
  from Cons.prems(1) have last: "(i + 1 = tot) = (rest = [])" by auto
  obtain r w' where step: "fill_and_submit_trip p t i (rest = []) w = (r, w')"
    by (cases "fill_and_submit_trip p t i (rest = []) w")
  from trip_reload_calls [of p t i "rest = []" w] step
  have rc: "reload_calls w' = reload_calls w + (if submitted p t \<and> rest \<noteq> [] then 1 else 0)"
    by simp
  show ?case
  proof (cases r)
    case (Inl e)
    with tp last step rc show ?thesis by (cases rest) auto
  next
    case (Inr b)
    let ?c = "if b then c + 1 else c"
    from Cons.prems(1) have len: "(i + 1) + length rest = tot" by simp
    from Cons.IH [OF len, of ?c w'] tp last step Inr rc show ?thesis
      by (cases rest) (auto split: if_splits)
  qed
qed

lemma process_trips_reload_all_submitted:
  "i + length batch = tot \<Longrightarrow> \<forall>(t, p) \<in> set (butlast batch). submitted p t \<Longrightarrow>
   reload_calls (snd (process_trips tot i batch c w)) = reload_calls w + (length batch - 1)"
proof (induction batch arbitrary: i c w)
  case Nil
  then show ?case by simp
next
  case (Cons tp rest)
  obtain t p where tp: "tp = (t, p)" by (cases tp)
  from Cons.prems(1) have last: "(i + 1 = tot) = (rest = [])" by auto
  obtain r w' where step: "fill_and_submit_trip p t i (rest = []) w = (r, w')"
    by (cases "fill_and_submit_trip p t i (rest = []) w")
  from trip_reload_calls [of p t i "rest = []" w] step
  have rc: "reload_calls w' = reload_calls w + (if submitted p t \<and> rest \<noteq> [] then 1 else 0)"
    by simp
  show ?case
  proof (cases "rest = []")
    case True
    with tp last step rc show ?thesis by (cases r) auto
  next
    case False
    with Cons.prems(2) tp have sub: "submitted p t"
      and rest: "\<forall>(t, p) \<in> set (butlast rest). submitted p t" by auto
    from trip_submitted_returns [OF sub, of i "rest = []" w] step
    obtain b where r: "r = Inr b" by auto
    let ?c = "if b then c + 1 else c"
    from Cons.prems(1) have len: "(i + 1) + length rest = tot" by simp
    from Cons.IH [OF len rest, of ?c w'] tp last step r rc sub False show ?thesis
      by (cases rest) auto
  qed
qed

lemma initialize_log_reload_calls: "reload_calls (initialize_log w) = reload_calls w"
  by (simp add: initialize_log_def)

lemma run_automation_landing_fails:
  "\<not> get_ok landing \<Longrightarrow>
   run_automation landing batch w = (Inl (WebDriverException []), initialize_log w)"
  by (simp add: run_automation_def driver_get_def)

lemma run_automation_landing_ok:
  "get_ok landing \<Longrightarrow>
   run_automation landing batch w =
     process_trips (length batch) 0 batch 0
       ((initialize_log w)\<lparr>navigations := navigations (initialize_log w) + 1\<rparr>)"
  by (simp add: run_automation_def driver_get_def)

text \<open>
  C8, as stated, fails: in a batch of two trips whose first trip fails (no submit
  control is found) and whose second trip is submitted, the batch runs to its end with
  one success and \<open>click_reload_form_button\<close> is never called, although the first trip
  is not the final one.
\<close>

theorem reload_after_failed_trip_counterexample:
  "length [(sample_trip, no_submit_page), (sample_trip, ok_page)] = 2
   \<and> fst (run_automation ok_page [(sample_trip, no_submit_page), (sample_trip, ok_page)]
              fresh_world) = Inr 1
   \<and> reload_calls (snd (run_automation ok_page
                          [(sample_trip, no_submit_page), (sample_trip, ok_page)]
                          fresh_world)) = 0"
  by (simp add: run_automation_def initialize_log_def eval_defs trip_defs find_form_context_def
        no_submit_page_def ok_page_def fresh_world_def)

text \<open>
  C8, amended. \<open>click_reload_form_button\<close> is called once after a trip that is submitted
  and is not the final one, and not otherwise: not after a trip that failed, and not
  after the final trip. A trip navigates to the entry URL at most once, and does so,
  when \<open>driver.get\<close> goes through, exactly when the trip was not submitted (also when it
  is the final trip) or when it is a submitted trip, not the final one, for which
  \<open>click_reload_form_button\<close> did not return \<open>True\<close>. Over a batch that runs to its end
  the number of calls of \<open>click_reload_form_button\<close> is the number of submitted trips
  among all but the last; it is at most N - 1 for a batch of N trips (0 for N = 1), and
  N - 1 when the first navigation goes through and every trip but the last is submitted.
\<close>

theorem reload_only_after_submitted_non_final:
  "reload_calls (snd (fill_and_submit_trip p t i is_last w))
     = reload_calls w + (if submitted p t \<and> \<not> is_last then 1 else 0)
   \<and> navigations (snd (fill_and_submit_trip p t i is_last w))
     = navigations w
       + (if get_ok p \<and> (\<not> submitted p t \<or> (\<not> is_last \<and> reload_outcome p \<noteq> Inr True))
          then 1 else 0)
   \<and> (fst (run_automation landing batch w) = Inr n \<longrightarrow>
        reload_calls (snd (run_automation landing batch w))
          = reload_calls w + length (filter (\<lambda>(t, p). submitted p t) (butlast batch)))
   \<and> reload_calls (snd (run_automation landing batch w)) \<le> reload_calls w + (length batch - 1)
   \<and> (get_ok landing \<and> (\<forall>(t, p) \<in> set (butlast batch). submitted p t) \<longrightarrow>
        reload_calls (snd (run_automation landing batch w)) = reload_calls w + (length batch - 1))"
proof (intro conjI impI)
  show "reload_calls (snd (fill_and_submit_trip p t i is_last w))
     = reload_calls w + (if submitted p t \<and> \<not> is_last then 1 else 0)"
    by (rule trip_reload_calls)
next
  show "navigations (snd (fill_and_submit_trip p t i is_last w))
     = navigations w
       + (if get_ok p \<and> (\<not> submitted p t \<or> (\<not> is_last \<and> reload_outcome p \<noteq> Inr True))
          then 1 else 0)"
    by (rule trip_navigations)
next
  assume r: "fst (run_automation landing batch w) = Inr n"
  show "reload_calls (snd (run_automation landing batch w))
          = reload_calls w + length (filter (\<lambda>(t, p). submitted p t) (butlast batch))"
  proof (cases "get_ok landing")
    case True
    with r process_trips_reload_completed [of 0 batch "length batch" 0
        "(initialize_log w)\<lparr>navigations := navigations (initialize_log w) + 1\<rparr>" n]
    show ?thesis by (simp add: run_automation_landing_ok initialize_log_reload_calls)
  next
    case False
    with r show ?thesis by (simp add: run_automation_landing_fails)
  qed
next
  show "reload_calls (snd (run_automation landing batch w)) \<le> reload_calls w + (length batch - 1)"
  proof (cases "get_ok landing")
    case True
    with process_trips_reload_bound [of 0 batch "length batch" 0
        "(initialize_log w)\<lparr>navigations := navigations (initialize_log w) + 1\<rparr>"]
    show ?thesis by (simp add: run_automation_landing_ok initialize_log_reload_calls)
  next
    case False
    then show ?thesis by (simp add: run_automation_landing_fails initialize_log_reload_calls)
  qed
next
  assume a: "get_ok landing \<and> (\<forall>(t, p) \<in> set (butlast batch). submitted p t)"
  with process_trips_reload_all_submitted [of 0 batch "length batch" 0
        "(initialize_log w)\<lparr>navigations := navigations (initialize_log w) + 1\<rparr>"]
  show "reload_calls (snd (run_automation landing batch w)) = reload_calls w + (length batch - 1)"
    by (simp add: run_automation_landing_ok initialize_log_reload_calls)
qed

lemma submitted_ok_sample: "submitted ok_page sample_trip"
  using fill_ok_sample by (simp add: submitted_def find_form_context_def ok_page_def)

lemma run_two_ok:
  "fst (run_automation ok_page [(sample_trip, ok_page), (sample_trip, ok_page)] fresh_world)
     = Inr 2"
  by (simp add: run_automation_def initialize_log_def eval_defs trip_defs find_form_context_def
        ok_page_def fresh_world_def)

text \<open>
  Two trips on the sample page: one call, after the first trip, and no navigation by
  that trip.
\<close>

theorem reload_only_after_submitted_non_final_witness:
  "reload_calls (snd (fill_and_submit_trip ok_page sample_trip 0 False fresh_world)) = 1
   \<and> navigations (snd (fill_and_submit_trip ok_page sample_trip 0 False fresh_world)) = 0
   \<and> reload_calls (snd (run_automation ok_page [(sample_trip, ok_page), (sample_trip, ok_page)]
                          fresh_world)) = 1"
proof -
  note t = reload_only_after_submitted_non_final [of ok_page sample_trip 0 False fresh_world
      ok_page "[(sample_trip, ok_page), (sample_trip, ok_page)]" 2]
  have g: "get_ok ok_page" and o: "reload_outcome ok_page = Inr True"
    by (simp_all add: ok_page_def)
  have a: "get_ok ok_page
           \<and> (\<forall>(t, p) \<in> set (butlast [(sample_trip, ok_page), (sample_trip, ok_page)]).
                  submitted p t)"
    by (simp add: submitted_ok_sample g)
  from t submitted_ok_sample
  have 1: "reload_calls (snd (fill_and_submit_trip ok_page sample_trip 0 False fresh_world)) = 1"
    by (simp add: fresh_world_def)
  from t submitted_ok_sample o
  have 2: "navigations (snd (fill_and_submit_trip ok_page sample_trip 0 False fresh_world)) = 0"
    by (simp add: fresh_world_def)
  from t run_two_ok submitted_ok_sample
  have 3: "reload_calls (snd (run_automation ok_page [(sample_trip, ok_page), (sample_trip, ok_page)]
                          fresh_world)) = 1"
    by (simp add: fresh_world_def)
  from t a
  have 4: "reload_calls (snd (run_automation ok_page [(sample_trip, ok_page), (sample_trip, ok_page)]
                          fresh_world)) = 1"
    by (simp add: fresh_world_def)
  from 1 2 3 4 show ?thesis by simp
qed

text \<open>
  C1. A batch of two trips whose first trip fails at the fill stage (the Plate field is
  not located): \<open>fill_and_submit_trip\<close> raises \<open>AttributeError\<close> from its \<open>finally\<close>
  clause, the loop of \<open>run_automation\<close> ends there, and the second trip, which would be
  submitted on its own, is never processed: no row is logged and submit is never clicked.
\<close>

theorem fill_failure_aborts_batch:
  "fill_all_fields_for_trip plate_timeout_page sample_trip = None
   \<and> run_automation ok_page [(sample_trip, plate_timeout_page), (sample_trip, ok_page)]
         fresh_world
       = (Inl (AttributeError none_has_no_get),
          \<lparr>ledger = Some [header_row], submit_clicks = 0, reload_calls = 0, navigations = 2\<rparr>)
   \<and> fst (run_automation ok_page [(sample_trip, ok_page)] fresh_world) = Inr 1"
  by (simp add: run_automation_def initialize_log_def eval_defs trip_defs find_form_context_def
        plate_timeout_page_def ok_page_def fresh_world_def)

text \<open>
  C2. For a trip that fails at the fill stage \<open>fill_and_submit_trip\<close> appends no row to
  the ledger: \<open>log_submission\<close> is called with \<open>None\<close> for the selected values and raises
  before it writes.
\<close>

theorem fill_failure_appends_no_row:
  "fill_and_submit_trip plate_timeout_page sample_trip 0 False
       \<lparr>ledger = Some [header_row], submit_clicks = 0, reload_calls = 0, navigations = 0\<rparr>
     = (Inl (AttributeError none_has_no_get),
        \<lparr>ledger = Some [header_row], submit_clicks = 0, reload_calls = 0, navigations = 1\<rparr>)"
  by (simp add: eval_defs trip_defs find_form_context_def plate_timeout_page_def ok_page_def)

text \<open>
  The ledger is only appended to: \<open>initialize_log\<close> leaves an existing file as it is, a
  trip appends one row (none when it fails at the fill stage), and a batch keeps the
  rows it found.
\<close>

lemma initialize_log_existing: "ledger w = Some old_rows \<Longrightarrow> initialize_log w = w"
  by (simp add: initialize_log_def)

lemma initialize_log_absent: "ledger w = None \<Longrightarrow> ledger (initialize_log w) = Some [header_row]"
  by (simp add: initialize_log_def)

lemma trip_ledger_appends:
  "\<exists>new. ledger (snd (fill_and_submit_trip p t i is_last w))
            = Some ((case ledger w of None \<Rightarrow> [] | Some rs \<Rightarrow> rs) @ new)
         \<and> length new = (if find_form_context p = Inr True \<and> fill_all_fields_for_trip p t = None
                          then 0 else 1)"
  by (auto simp: trip_defs Let_def split: sum.splits bool.splits option.splits)

lemma process_trips_ledger_appends:
  "ledger w = Some old_rows \<Longrightarrow>
   \<exists>new. ledger (snd (process_trips tot i batch c w)) = Some (old_rows @ new)
         \<and> length new \<le> length batch"
proof (induction batch arbitrary: i c w old_rows)
  case Nil
  then show ?case by simp
next
  case (Cons tp rest)
  obtain t p where tp: "tp = (t, p)" by (cases tp)
  obtain r w' where step: "fill_and_submit_trip p t i (i + 1 = tot) w = (r, w')"
    by (cases "fill_and_submit_trip p t i (i + 1 = tot) w")
  from trip_ledger_appends [of p t i "i + 1 = tot" w] step Cons.prems
  obtain new where new: "ledger w' = Some (old_rows @ new)" "length new \<le> 1"
    by (auto split: if_splits)
  show ?case
  proof (cases r)
    case (Inl e)
    with tp step new show ?thesis by auto
  next
    case (Inr b)
    from Cons.IH [OF new(1), of "i + 1" "if b then c + 1 else c"]
    obtain new' where "ledger (snd (process_trips tot (i + 1) rest (if b then c + 1 else c) w'))
         = Some ((old_rows @ new) @ new')" "length new' \<le> length rest" by blast
    with tp step Inr new(2) show ?thesis
      by (intro exI [of _ "new @ new'"]) auto
  qed
qed

subsection \<open>Loading the trip records\<close>






















end
